theory Spec2Isabelle
  imports Complex_Main
begin

section \<open>Python values and errors\<close>

text \<open>
  The deal properties come out of a JSON document: a property is absent (\<open>.get\<close> then
  yields \<open>None\<close>), a string, or a number. Python floats are modelled as exact reals:
  rounding, infinities and NaN are outside the model. Every exception the aggregation
  and the row allocator can raise is a constructor of \<open>py_error\<close>.
\<close>

datatype py_error =
    TypeError
  | ValueError
  | ZeroDivisionError
  | UnboundLocalError
  | IOError
  | IncorrectCellLabel

datatype pyval = PNone | PStr string | PNum real

text \<open>Truthiness as \<open>if net_revenue:\<close> tests it.\<close>

fun truthy :: "pyval \<Rightarrow> bool" where
  "truthy PNone = False"
| "truthy (PStr s) = (s \<noteq> [])"
| "truthy (PNum x) = (x \<noteq> 0)"

text \<open>
  \<open>float(v)\<close>: a \<open>TypeError\<close> on \<open>None\<close>, a \<open>ValueError\<close> on a string that is not a
  number. The parser of strings is the parameter \<open>pf\<close>, so the results below hold for
  Python's own parser as for any other.
\<close>

fun py_float :: "(string \<Rightarrow> real option) \<Rightarrow> pyval \<Rightarrow> py_error + real" where
  "py_float pf PNone = Inl TypeError"
| "py_float pf (PStr s) = (case pf s of None \<Rightarrow> Inl ValueError | Some x \<Rightarrow> Inr x)"
| "py_float pf (PNum x) = Inr x"

text \<open>
  A concrete parser for the examples: the plain decimal strings \<open>[+-]digits[.digits]\<close>,
  a fragment of what \<open>float\<close> accepts.
\<close>

definition digit_of :: "char \<Rightarrow> nat option" where
  "digit_of c = (let n = (of_char c :: nat) in if 48 \<le> n \<and> n \<le> 57 then Some (n - 48) else None)"

fun digits_val :: "nat \<Rightarrow> string \<Rightarrow> nat option" where
  "digits_val acc [] = Some acc"
| "digits_val acc (c # cs) =
     (case digit_of c of None \<Rightarrow> None | Some d \<Rightarrow> digits_val (10 * acc + d) cs)"

definition unsigned_decimal :: "string \<Rightarrow> real option" where
  "unsigned_decimal s =
     (let ip = takeWhile (\<lambda>c. c \<noteq> CHR ''.'') s;
          rest = dropWhile (\<lambda>c. c \<noteq> CHR ''.'') s;
          fp = tl rest
      in if ip = [] \<and> fp = [] then None
         else (case (digits_val 0 ip, digits_val 0 fp) of
                 (Some a, Some b) \<Rightarrow> Some (real a + real b / 10 ^ length fp)
               | _ \<Rightarrow> None))"

definition decimal_float :: "string \<Rightarrow> real option" where
  "decimal_float s =
     (case s of
        [] \<Rightarrow> None
      | c # t \<Rightarrow>
          if c = CHR ''-'' then map_option uminus (unsigned_decimal t)
          else if c = CHR ''+'' then unsigned_decimal t
          else unsigned_decimal s)"

section \<open>The aggregation: \<open>extract_data\<close>\<close>

text \<open>
  A deal is the dictionary \<open>deal['properties']\<close> read through \<open>.get\<close> at the four keys
  the loop uses (the all-time variant reads the amount under \<open>amount_in_home_currency\<close>).
\<close>

record deal =
  amount :: pyval
  hs_object_id :: pyval
  net_revenue :: pyval
  deal_currency_code :: pyval

text \<open>
  The local variables of \<open>extract_data\<close>. \<open>margin\<close> and \<open>cost\<close> are assigned inside the
  loop only: before the first record they are unbound (\<open>None\<close> here).
\<close>

record agg_state =
  idcal :: "pyval list"
  num_amounts :: real
  num_net_revenue :: real
  margin :: "real option"
  cost :: "real option"

definition init_state :: agg_state where
  "init_state = \<lparr>idcal = [], num_amounts = 0, num_net_revenue = 0, margin = None, cost = None\<rparr>"

text \<open>
  \<open>if currency == "NZD": if rate is not None: net_revenue = float(net_revenue) / rate\<close>.
  The result is the value the variable \<open>net_revenue\<close> holds afterwards.
\<close>

definition convert_nzd :: "(string \<Rightarrow> real option) \<Rightarrow> real option \<Rightarrow> deal \<Rightarrow> py_error + pyval" where
  "convert_nzd pf rate d =
     (if deal_currency_code d = PStr ''NZD'' then
        (case rate of
           None \<Rightarrow> Inr (net_revenue d)
         | Some r \<Rightarrow>
             (case py_float pf (net_revenue d) of
                Inl e \<Rightarrow> Inl e
              | Inr x \<Rightarrow> if r = 0 then Inl ZeroDivisionError else Inr (PNum (x / r))))
      else Inr (net_revenue d))"

text \<open>One iteration of the loop over \<open>deals\<close>.\<close>

definition deal_step ::
  "(string \<Rightarrow> real option) \<Rightarrow> real option \<Rightarrow> agg_state \<Rightarrow> deal \<Rightarrow> py_error + agg_state" where
  "deal_step pf rate st d =
     (case convert_nzd pf rate d of
        Inl e \<Rightarrow> Inl e
      | Inr nr \<Rightarrow>
          (case py_float pf (amount d) of
             Inl e \<Rightarrow> Inl e
           | Inr a \<Rightarrow>
               (case (if truthy nr then py_float pf nr else py_float pf (amount d)) of
                  Inl e \<Rightarrow> Inl e
                | Inr eff \<Rightarrow>
                    (let na = num_amounts st + a; nn = num_net_revenue st + eff
                     in if na = 0 then Inl ZeroDivisionError
                        else Inr \<lparr>idcal = idcal st @ [hs_object_id d],
                                  num_amounts = na,
                                  num_net_revenue = nn,
                                  margin = Some (nn / na * 100),
                                  cost = Some (na - nn)\<rparr>))))"

fun run_deals ::
  "(string \<Rightarrow> real option) \<Rightarrow> real option \<Rightarrow> agg_state \<Rightarrow> deal list \<Rightarrow> py_error + agg_state" where
  "run_deals pf rate st [] = Inr st"
| "run_deals pf rate st (d # ds) =
     (case deal_step pf rate st d of
        Inl e \<Rightarrow> Inl e
      | Inr st' \<Rightarrow> run_deals pf rate st' ds)"

text \<open>
  \<open>return margin, len(idcal)\<close> of the financial-year variant, and the five values of
  the all-time variant. Reading the unbound \<open>margin\<close> raises \<open>UnboundLocalError\<close>.
\<close>

definition extract_data ::
  "(string \<Rightarrow> real option) \<Rightarrow> deal list \<Rightarrow> real option \<Rightarrow> py_error + (real \<times> nat)" where
  "extract_data pf deals rate =
     (case run_deals pf rate init_state deals of
        Inl e \<Rightarrow> Inl e
      | Inr st \<Rightarrow>
          (case margin st of
             None \<Rightarrow> Inl UnboundLocalError
           | Some m \<Rightarrow> Inr (m, length (idcal st))))"

definition extract_data_alltime ::
  "(string \<Rightarrow> real option) \<Rightarrow> deal list \<Rightarrow> real option
     \<Rightarrow> py_error + (real \<times> nat \<times> real \<times> real \<times> real)" where
  "extract_data_alltime pf deals rate =
     (case run_deals pf rate init_state deals of
        Inl e \<Rightarrow> Inl e
      | Inr st \<Rightarrow>
          (case (margin st, cost st) of
             (Some m, Some c) \<Rightarrow> Inr (m, length (idcal st), num_amounts st, num_net_revenue st, c)
           | _ \<Rightarrow> Inl UnboundLocalError))"

section \<open>The orchestrator: \<open>alltime\<close> and the writer of the financial-year report\<close>

text \<open>A result is a value or the string \<open>"NA"\<close>.\<close>

datatype 'a cell = NA | Val 'a

text \<open>
  \<open>find_deals(start_date, end_date, deal_stage, page)\<close> is the CRM: a parameter \<open>fd\<close>,
  one snapshot for the run. A failed request is the empty list, as in the source.
\<close>

type_synonym fetch = "string \<Rightarrow> string \<Rightarrow> string list \<Rightarrow> string \<Rightarrow> deal list"

text \<open>The inner loop \<open>for stage_category in deal_stage\<close>, on the two result lists.\<close>

fun stage_loop ::
  "(string \<Rightarrow> real option) \<Rightarrow> fetch \<Rightarrow> real option \<Rightarrow> string \<Rightarrow> string \<Rightarrow> string list list
     \<Rightarrow> real cell list \<times> nat cell list \<Rightarrow> py_error + (real cell list \<times> nat cell list)" where
  "stage_loop pf fd rate start end_date [] acc = Inr acc"
| "stage_loop pf fd rate start end_date (stage_category # rest) (margins, totals) =
     (let deals = fd start end_date stage_category ''limit'';
          deals_after = fd start end_date stage_category ''after'';
          all_deals = deals @ deals_after
      in if all_deals \<noteq> [] then
           (case extract_data pf all_deals rate of
              Inl e \<Rightarrow> Inl e
            | Inr (m, tot) \<Rightarrow>
                stage_loop pf fd rate start end_date rest (margins @ [Val m], totals @ [Val tot]))
         else stage_loop pf fd rate start end_date rest (margins @ [NA], totals @ [NA]))"

text \<open>The outer loop \<open>for quarter, start, end in quarters\<close>.\<close>

fun quarter_loop ::
  "(string \<Rightarrow> real option) \<Rightarrow> fetch \<Rightarrow> real option \<Rightarrow> string list list
     \<Rightarrow> (string \<times> string \<times> string) list
     \<Rightarrow> real cell list \<times> nat cell list \<Rightarrow> py_error + (real cell list \<times> nat cell list)" where
  "quarter_loop pf fd rate deal_stage [] acc = Inr acc"
| "quarter_loop pf fd rate deal_stage ((quarter, start, end_date) # qs) acc =
     (case stage_loop pf fd rate start end_date deal_stage acc of
        Inl e \<Rightarrow> Inl e
      | Inr acc' \<Rightarrow> quarter_loop pf fd rate deal_stage qs acc')"

definition quarters :: "string \<Rightarrow> string \<Rightarrow> string \<Rightarrow> string \<Rightarrow> (string \<times> string \<times> string) list" where
  "quarters quarterstart quarterend financialstart financialend =
     [(''Q1'', quarterstart, quarterend), (''Financial Year'', financialstart, financialend)]"

definition alltime ::
  "(string \<Rightarrow> real option) \<Rightarrow> fetch \<Rightarrow> string list list \<Rightarrow> string \<Rightarrow> string \<Rightarrow> string \<Rightarrow> string
     \<Rightarrow> real option \<Rightarrow> py_error + (real cell list \<times> nat cell list)" where
  "alltime pf fd deal_stage quarterstart quarterend financialstart financialend rate =
     quarter_loop pf fd rate deal_stage
       (quarters quarterstart quarterend financialstart financialend) ([], [])"

text \<open>
  \<open>round(margin, 2)\<close> on the exact value: to the nearest hundredth, a tie to the even
  one.
\<close>

definition py_round2 :: "real \<Rightarrow> real" where
  "py_round2 x =
     (let y = x * 100; f = \<lfloor>y\<rfloor>; d = y - of_int f
      in of_int (if d < 1 / 2 then f else if 1 / 2 < d then f + 1
                 else if even f then f else f + 1) / 100)"

text \<open>
  The string written into a cell: \<open>"NA"\<close>, or the rounded margin and the total of
  \<open>f"{round(margin, 2)}% | deals: {total}"\<close>, kept as its two parts.
\<close>

datatype report = ReportNA | Report real "nat cell"

text \<open>
  The loop of \<open>main\<close> over \<open>zip(margins, totals)\<close>. A write is the code point of the
  column letter (\<open>chr(65 + col)\<close>), the row and the report; \<open>sheet\<close> is the list of the
  writes made so far, in order.
\<close>

type_synonym cell_write = "nat \<times> nat \<times> report"

fun write_loop ::
  "nat \<Rightarrow> nat \<Rightarrow> nat \<Rightarrow> cell_write list \<Rightarrow> (real cell \<times> nat cell) list \<Rightarrow> cell_write list" where
  "write_loop row col values_entered sheet [] = sheet"
| "write_loop row col values_entered sheet ((m, tot) # rest) =
     (let excel_col = 65 + col;
          report = (case m of Val x \<Rightarrow> Report (py_round2 x) tot | NA \<Rightarrow> ReportNA);
          sheet' = sheet @ [(excel_col, row, report)];
          values_entered' = values_entered + 1
      in if values_entered' mod 3 = 0
         then write_loop (1 + 1) (col + 1) values_entered' sheet' rest
         else write_loop (row + 1) col values_entered' sheet' rest)"

definition main_financial ::
  "(string \<Rightarrow> real option) \<Rightarrow> fetch \<Rightarrow> real option \<Rightarrow> string \<Rightarrow> string \<Rightarrow> string \<Rightarrow> string
     \<Rightarrow> py_error + cell_write list" where
  "main_financial pf fd rate current_quarter_start current_quarter_end
       current_financial_year_start current_financial_year_end =
     (let all = [''123633772'', ''848f19bf-930a-4f0f-bbc5-8d4b69d2cc3a''];
          sales = [''123633772''];
          renewels = [''848f19bf-930a-4f0f-bbc5-8d4b69d2cc3a'']
      in case alltime pf fd [all, sales, renewels] current_quarter_start current_quarter_end
                current_financial_year_start current_financial_year_end rate of
           Inl e \<Rightarrow> Inl e
         | Inr (margins, totals) \<Rightarrow> Inr (write_loop 2 1 0 [] (zip margins totals)))"

section \<open>The row allocator of the all-time report\<close>

text \<open>
  The file \<open>rownumber.txt\<close> as \<open>open\<close>, \<open>read\<close> and \<open>int\<close> see it: it cannot be
  opened, its text is not an integer, or it holds an integer; \<open>writable\<close> says whether
  opening it for writing succeeds. Writing \<open>str(number)\<close> leaves a file that reads back
  as that integer.
\<close>

datatype counter_content = NoFile | Garbage | Number int

record counter_file =
  content :: counter_content
  writable :: bool

definition increment_file_number :: "counter_file \<Rightarrow> (py_error + int) \<times> counter_file" where
  "increment_file_number f =
     (case content f of
        NoFile \<Rightarrow> (Inl IOError, f)
      | Garbage \<Rightarrow> (Inl ValueError, f)
      | Number number \<Rightarrow>
          (let previousnumber = number
           in if writable f then (Inr previousnumber, f\<lparr>content := Number (number + 1)\<rparr>)
              else (Inl IOError, f)))"

text \<open>
  The worksheet: its \<open>row_count\<close> and the values of its first column (\<open>None\<close> for an
  empty cell). gspread refuses a row below 1 with \<open>IncorrectCellLabel\<close>.
\<close>

record worksheet =
  row_count :: int
  first_col :: "int \<Rightarrow> string option"

definition cell_value :: "worksheet \<Rightarrow> int \<Rightarrow> py_error + string option" where
  "cell_value ws r = (if r < 1 then Inl IncorrectCellLabel else Inr (first_col ws r))"

text \<open>\<open>for row in range(currentrow, worksheet.row_count + 1)\<close>; \<open>None\<close> is "sheet full".\<close>

function scan_rows :: "worksheet \<Rightarrow> int \<Rightarrow> py_error + int option" where
  "scan_rows ws row =
     (if row < row_count ws + 1 then
        (case cell_value ws row of
           Inl e \<Rightarrow> Inl e
         | Inr None \<Rightarrow> Inr (Some row)
         | Inr (Some v) \<Rightarrow> scan_rows ws (row + 1))
      else Inr None)"
  by pat_completeness auto
termination
  by (relation "measure (\<lambda>(ws, row). nat (row_count ws + 1 - row))") auto

declare scan_rows.simps [simp del]

definition get_next_open_row ::
  "counter_file \<Rightarrow> worksheet \<Rightarrow> (py_error + int option) \<times> counter_file" where
  "get_next_open_row f ws =
     (case increment_file_number f of
        (Inl e, f') \<Rightarrow> (Inl e, f')
      | (Inr currentrow, f') \<Rightarrow> (scan_rows ws currentrow, f'))"

section \<open>The pagination loop of the all-time report\<close>

text \<open>
  \<open>find_deals(page, length)\<close> of the all-time variant is the parameter \<open>fd\<close>. The loop
  \<open>while length % 100 == 0\<close> may run forever: not returning is the value \<open>None\<close>.
\<close>

partial_function (option) fetch_loop :: "(string \<Rightarrow> nat \<Rightarrow> deal list) \<Rightarrow> deal list \<Rightarrow> deal list option" where
  "fetch_loop fd answer =
     (if length answer mod 100 = 0
      then fetch_loop fd (answer @ fd ''after'' (length answer))
      else Some answer)"

definition fetch_all :: "(string \<Rightarrow> nat \<Rightarrow> deal list) \<Rightarrow> deal list option" where
  "fetch_all fd = fetch_loop fd (fd ''limit'' 100)"

text \<open>The value of \<open>answer\<close> after \<open>n\<close> passes through the loop body.\<close>

fun answer_after :: "(string \<Rightarrow> nat \<Rightarrow> deal list) \<Rightarrow> deal list \<Rightarrow> nat \<Rightarrow> deal list" where
  "answer_after fd answer 0 = answer"
| "answer_after fd answer (Suc n) =
     answer_after fd (answer @ fd ''after'' (length answer)) n"

section \<open>Quantities the statements use\<close>

text \<open>
  The number a deal's amount converts to, and its net revenue when that is present
  (truthy), otherwise its amount: the summands of the margin formula.
\<close>

definition amount_of :: "(string \<Rightarrow> real option) \<Rightarrow> deal \<Rightarrow> real" where
  "amount_of pf d = (case py_float pf (amount d) of Inr a \<Rightarrow> a | Inl e \<Rightarrow> 0)"

definition net_revenue_or_amount :: "(string \<Rightarrow> real option) \<Rightarrow> deal \<Rightarrow> real" where
  "net_revenue_or_amount pf d =
     (if truthy (net_revenue d)
      then (case py_float pf (net_revenue d) of Inr x \<Rightarrow> x | Inl e \<Rightarrow> 0)
      else amount_of pf d)"

text \<open>The amount is a number, and so is the net revenue when it is present.\<close>

definition numeric_fields :: "(string \<Rightarrow> real option) \<Rightarrow> deal \<Rightarrow> bool" where
  "numeric_fields pf d =
     ((case py_float pf (amount d) of Inr a \<Rightarrow> True | Inl e \<Rightarrow> False) \<and>
      (if truthy (net_revenue d)
       then (case py_float pf (net_revenue d) of Inr x \<Rightarrow> True | Inl e \<Rightarrow> False)
       else True))"

text \<open>Starting from \<open>acc\<close>, the total of the amounts is non-zero after every record.\<close>

fun running_totals_nonzero :: "(string \<Rightarrow> real option) \<Rightarrow> real \<Rightarrow> deal list \<Rightarrow> bool" where
  "running_totals_nonzero pf acc [] = True"
| "running_totals_nonzero pf acc (d # ds) =
     (acc + amount_of pf d \<noteq> 0 \<and> running_totals_nonzero pf (acc + amount_of pf d) ds)"

text \<open>
  The result of one cell of the matrix: the body of the inner loop of \<open>alltime\<close> at a
  period and a stage category.
\<close>

definition cell_of ::
  "(string \<Rightarrow> real option) \<Rightarrow> fetch \<Rightarrow> real option \<Rightarrow> (string \<times> string \<times> string) \<times> string list
     \<Rightarrow> py_error + (real cell \<times> nat cell)" where
  "cell_of pf fd rate qc =
     (case qc of ((quarter, start, end_date), stage_category) \<Rightarrow>
        (let all_deals = fd start end_date stage_category ''limit''
                         @ fd start end_date stage_category ''after''
         in if all_deals \<noteq> [] then
              (case extract_data pf all_deals rate of
                 Inl e \<Rightarrow> Inl e
               | Inr (m, tot) \<Rightarrow> Inr (Val m, Val tot))
            else Inr (NA, NA)))"

text \<open>The report that the writer makes of a margin and a total.\<close>

definition report_of :: "real cell \<times> nat cell \<Rightarrow> report" where
  "report_of mt = (case mt of (Val x, tot) \<Rightarrow> Report (py_round2 x) tot | (NA, tot) \<Rightarrow> ReportNA)"

section \<open>Facts about the aggregation\<close>

lemma extract_data_Nil: "extract_data pf [] rate = Inl UnboundLocalError"
  by (simp add: extract_data_def init_state_def)

lemma run_deals_append:
  "run_deals pf rate st (xs @ ys) =
     (case run_deals pf rate st xs of Inl e \<Rightarrow> Inl e | Inr st' \<Rightarrow> run_deals pf rate st' ys)"
  by (induction xs arbitrary: st) (auto split: sum.splits)

lemma deal_step_base:
  assumes "deal_currency_code d \<noteq> PStr ''NZD''" and "numeric_fields pf d"
    and "num_amounts st + amount_of pf d \<noteq> 0"
  shows "deal_step pf rate st d =
     Inr \<lparr>idcal = idcal st @ [hs_object_id d],
          num_amounts = num_amounts st + amount_of pf d,
          num_net_revenue = num_net_revenue st + net_revenue_or_amount pf d,
          margin = Some ((num_net_revenue st + net_revenue_or_amount pf d)
                         / (num_amounts st + amount_of pf d) * 100),
          cost = Some (num_amounts st + amount_of pf d
                       - (num_net_revenue st + net_revenue_or_amount pf d))\<rparr>"
  using assms
  by (auto simp: deal_step_def convert_nzd_def numeric_fields_def amount_of_def
      net_revenue_or_amount_def Let_def split: sum.splits if_splits)

lemma run_deals_base:
  assumes "\<forall>d\<in>set deals. deal_currency_code d \<noteq> PStr ''NZD'' \<and> numeric_fields pf d"
    and "running_totals_nonzero pf (num_amounts st) deals"
  shows "\<exists>st'. run_deals pf rate st deals = Inr st' \<and>
           num_amounts st' = num_amounts st + sum_list (map (amount_of pf) deals) \<and>
           num_net_revenue st' = num_net_revenue st + sum_list (map (net_revenue_or_amount pf) deals) \<and>
           idcal st' = idcal st @ map hs_object_id deals \<and>
           (deals \<noteq> [] \<longrightarrow>
              margin st' = Some (num_net_revenue st' / num_amounts st' * 100) \<and>
              cost st' = Some (num_amounts st' - num_net_revenue st'))"
  using assms
proof (induction deals arbitrary: st)
  case Nil
  then show ?case by simp
next
  case (Cons d ds)
  let ?st1 = "\<lparr>idcal = idcal st @ [hs_object_id d],
          num_amounts = num_amounts st + amount_of pf d,
          num_net_revenue = num_net_revenue st + net_revenue_or_amount pf d,
          margin = Some ((num_net_revenue st + net_revenue_or_amount pf d)
                         / (num_amounts st + amount_of pf d) * 100),
          cost = Some (num_amounts st + amount_of pf d
                       - (num_net_revenue st + net_revenue_or_amount pf d))\<rparr>"
  have nz: "num_amounts st + amount_of pf d \<noteq> 0"
    using Cons.prems(2) by simp
  have step: "deal_step pf rate st d = Inr ?st1"
    using Cons.prems(1) nz by (intro deal_step_base) auto
  have pre: "running_totals_nonzero pf (num_amounts ?st1) ds"
    using Cons.prems(2) by simp
  from Cons.IH[of ?st1, OF _ pre] Cons.prems(1)
  obtain st' where st': "run_deals pf rate ?st1 ds = Inr st'"
    "num_amounts st' = num_amounts ?st1 + sum_list (map (amount_of pf) ds)"
    "num_net_revenue st' = num_net_revenue ?st1 + sum_list (map (net_revenue_or_amount pf) ds)"
    "idcal st' = idcal ?st1 @ map hs_object_id ds"
    "ds \<noteq> [] \<longrightarrow>
       margin st' = Some (num_net_revenue st' / num_amounts st' * 100) \<and>
       cost st' = Some (num_amounts st' - num_net_revenue st')"
    by auto
  have run: "run_deals pf rate st (d # ds) = Inr st'"
    using step st'(1) by simp
  have m: "margin st' = Some (num_net_revenue st' / num_amounts st' * 100) \<and>
           cost st' = Some (num_amounts st' - num_net_revenue st')"
  proof (cases ds)
    case Nil
    then show ?thesis using st'(1) by auto
  next
    case (Cons a list)
    then show ?thesis using st'(5) by simp
  qed
  show ?case
    using run st'(2,3,4) m by (simp add: add.assoc)
qed

lemmas eval_defs = extract_data_def extract_data_alltime_def init_state_def deal_step_def
  convert_nzd_def decimal_float_def unsigned_decimal_def digit_of_def

section \<open>The empty deal sequence\<close>

text \<open>
  Claim C1. When both fetches of a cell return no deal, \<open>alltime\<close> appends \<open>"NA"\<close> to
  the margins and to the totals and goes on with the next stage category, so the cell is
  \<open>("NA", "NA")\<close> and nothing is raised. The guard \<open>if all_deals:\<close> keeps the empty
  sequence away from \<open>extract_data\<close>, which on it would raise \<open>UnboundLocalError\<close>: the
  loop body with the division is not entered.
\<close>

theorem alltime_empty_cell:
  assumes "fd start end_date stage_category ''limit'' = []"
    and "fd start end_date stage_category ''after'' = []"
  shows "stage_loop pf fd rate start end_date (stage_category # rest) (margins, totals) =
           stage_loop pf fd rate start end_date rest (margins @ [NA], totals @ [NA]) \<and>
         cell_of pf fd rate ((quarter, start, end_date), stage_category) = Inr (NA, NA) \<and>
         extract_data pf (fd start end_date stage_category ''limit''
                          @ fd start end_date stage_category ''after'') rate
           = Inl UnboundLocalError"
  using assms by (simp add: cell_of_def extract_data_Nil)

theorem alltime_empty_cell_witness:
  "alltime decimal_float
     (\<lambda>s e sc p. if p = ''limit'' \<and> sc = [''848f19bf-930a-4f0f-bbc5-8d4b69d2cc3a'']
        then [\<lparr>amount = PStr ''100'', hs_object_id = PStr ''1'', net_revenue = PStr ''50'',
               deal_currency_code = PStr ''AUD''\<rparr>] else [])
     [[''123633772''], [''848f19bf-930a-4f0f-bbc5-8d4b69d2cc3a'']]
     ''2024-07-01'' ''2024-09-30'' ''2024-07-01'' ''2025-06-30'' (Some 2)
     = Inr ([NA, Val 50, NA, Val 50], [NA, Val 1, NA, Val 1])"
proof -
  let ?fd = "\<lambda>(s::string) (e::string) (sc::string list) (p::string).
       if p = ''limit'' \<and> sc = [''848f19bf-930a-4f0f-bbc5-8d4b69d2cc3a'']
        then [\<lparr>amount = PStr ''100'', hs_object_id = PStr ''1'', net_revenue = PStr ''50'',
               deal_currency_code = PStr ''AUD''\<rparr>] else []"
  let ?rest = "[[''848f19bf-930a-4f0f-bbc5-8d4b69d2cc3a'']]"
  have h1: "?fd s e [''123633772''] ''limit'' = []" for s e
    by simp
  have h2: "?fd s e [''123633772''] ''after'' = []" for s e
    by simp
  have skip: "stage_loop decimal_float ?fd (Some 2) s e ([''123633772''] # ?rest) (ms, ts)
          = stage_loop decimal_float ?fd (Some 2) s e ?rest (ms @ [NA], ts @ [NA])" for s e ms ts
    using alltime_empty_cell [where fd = ?fd and start = s and end_date = e
        and stage_category = "[''123633772'']" and pf = decimal_float and rate = "Some 2"
        and rest = ?rest and margins = ms and totals = ts] h1 h2
    by simp
  have rest: "stage_loop decimal_float ?fd (Some 2) s e ?rest (ms, ts)
          = Inr (ms @ [Val 50], ts @ [Val 1])" for s e ms ts
    by (simp add: eval_defs)
  show ?thesis
    using skip rest by (simp add: alltime_def quarters_def del: stage_loop.simps)
qed

section \<open>A total amount of zero\<close>

text \<open>
  Claim C2, as amended. The division \<open>num_net_revenue / num_amounts\<close> has no guard: when
  the records before \<open>d\<close> were aggregated and the fields of \<open>d\<close> convert, and the total
  amount is zero after \<open>d\<close>, both variants of \<open>extract_data\<close> raise \<open>ZeroDivisionError\<close>
  at \<open>d\<close>, whatever follows it.
\<close>

theorem zero_total_raises:
  assumes "run_deals pf rate init_state ds = Inr st"
    and "convert_nzd pf rate d = Inr nr"
    and "py_float pf (amount d) = Inr a"
    and "(if truthy nr then py_float pf nr else py_float pf (amount d)) = Inr eff"
    and "num_amounts st + a = 0"
  shows "extract_data pf (ds @ d # rest) rate = Inl ZeroDivisionError \<and>
         extract_data_alltime pf (ds @ d # rest) rate = Inl ZeroDivisionError"
proof -
  have "deal_step pf rate st d = Inl ZeroDivisionError"
    using assms(2-5) by (auto simp: deal_step_def Let_def split: if_splits)
  then have "run_deals pf rate init_state (ds @ d # rest) = Inl ZeroDivisionError"
    using assms(1) by (simp add: run_deals_append)
  then show ?thesis
    by (simp add: extract_data_def extract_data_alltime_def)
qed
theorem zero_total_raises_witness:
  "extract_data decimal_float
     ([\<lparr>amount = PStr ''100'', hs_object_id = PStr ''1'', net_revenue = PStr ''50'',
        deal_currency_code = PStr ''AUD''\<rparr>]
      @ \<lparr>amount = PStr ''-100'', hs_object_id = PStr ''2'', net_revenue = PStr ''-20'',
          deal_currency_code = PStr ''AUD''\<rparr>
      # [\<lparr>amount = PStr ''70'', hs_object_id = PStr ''3'', net_revenue = PNone,
          deal_currency_code = PStr ''AUD''\<rparr>]) None = Inl ZeroDivisionError"
proof -
  let ?d1 = "\<lparr>amount = PStr ''100'', hs_object_id = PStr ''1'', net_revenue = PStr ''50'',
        deal_currency_code = PStr ''AUD''\<rparr>"
  let ?d2 = "\<lparr>amount = PStr ''-100'', hs_object_id = PStr ''2'', net_revenue = PStr ''-20'',
          deal_currency_code = PStr ''AUD''\<rparr>"
  let ?st = "\<lparr>idcal = [PStr ''1''], num_amounts = 100, num_net_revenue = 50,
       margin = Some 50, cost = Some 50\<rparr>"
  have h1: "run_deals decimal_float None init_state [?d1] = Inr ?st"
    by (simp add: eval_defs)
  have h2: "convert_nzd decimal_float None ?d2 = Inr (PStr ''-20'')"
    by (simp add: eval_defs)
  have h3: "py_float decimal_float (amount ?d2) = Inr (- 100)"
    by (simp add: eval_defs)
  have h4: "(if truthy (PStr ''-20'') then py_float decimal_float (PStr ''-20'')
             else py_float decimal_float (amount ?d2)) = Inr (- 20)"
    by (simp add: eval_defs)
  have h5: "num_amounts ?st + (- 100) = 0"
    by simp
  show ?thesis
    using zero_total_raises [OF h1 h2 h3 h4 h5] by simp
qed

text \<open>
  The claim as stated fails: on a single record of amount 0 the aggregation raises, and
  so does the run of \<open>alltime\<close> that meets it; no \<open>"NA"\<close> is produced.
\<close>

theorem zero_total_unguarded_counterexample:
  "extract_data decimal_float
     [\<lparr>amount = PStr ''0'', hs_object_id = PStr ''1'', net_revenue = PNone,
       deal_currency_code = PStr ''AUD''\<rparr>] None = Inl ZeroDivisionError \<and>
   extract_data_alltime decimal_float
     [\<lparr>amount = PStr ''0'', hs_object_id = PStr ''1'', net_revenue = PNone,
       deal_currency_code = PStr ''AUD''\<rparr>] None = Inl ZeroDivisionError \<and>
   alltime decimal_float
     (\<lambda>s e c p. if p = ''limit'' then
        [\<lparr>amount = PStr ''0'', hs_object_id = PStr ''1'', net_revenue = PNone,
          deal_currency_code = PStr ''AUD''\<rparr>] else [])
     [[''123633772'']] ''2024-07-01'' ''2024-09-30'' ''2024-07-01'' ''2025-06-30'' None
     = Inl ZeroDivisionError"
  by (simp add: eval_defs alltime_def quarters_def)

section \<open>The margin of a batch in the base currency\<close>

text \<open>
  Claim C3, as amended. For a non-empty sequence of deals none of which is in NZD,
  whose amounts and present net revenues are numbers, and whose total amount is
  non-zero after every record, \<open>extract_data\<close> returns the margin
  \<open>100 * sum(net_revenue when present, otherwise amount) / sum(amount)\<close> and the number
  of records; the all-time variant returns with them the total amount \<open>sum(amount)\<close>,
  the total net revenue \<open>sum(net_revenue when present, otherwise amount)\<close> and their
  difference, the cost. On the deals of amount 100 with net revenue 50 and of amount 200
  without net revenue the totals are 300 and 250, the margin 250/3 (83.33 when rounded)
  and the count 2.
\<close>

theorem extract_data_base_currency:
  assumes "deals \<noteq> []"
    and "\<forall>d\<in>set deals. deal_currency_code d \<noteq> PStr ''NZD'' \<and> numeric_fields pf d"
    and "running_totals_nonzero pf 0 deals"
  shows "extract_data pf deals rate =
           Inr (100 * sum_list (map (net_revenue_or_amount pf) deals)
                  / sum_list (map (amount_of pf) deals), length deals) \<and>
         extract_data_alltime pf deals rate =
           Inr (100 * sum_list (map (net_revenue_or_amount pf) deals)
                  / sum_list (map (amount_of pf) deals), length deals,
                sum_list (map (amount_of pf) deals),
                sum_list (map (net_revenue_or_amount pf) deals),
                sum_list (map (amount_of pf) deals)
                  - sum_list (map (net_revenue_or_amount pf) deals))"
proof -
  have "running_totals_nonzero pf (num_amounts init_state) deals"
    using assms(3) by (simp add: init_state_def)
  from run_deals_base[OF assms(2) this, of rate] assms(1)
  obtain st' where st': "run_deals pf rate init_state deals = Inr st'"
    "num_amounts st' = sum_list (map (amount_of pf) deals)"
    "num_net_revenue st' = sum_list (map (net_revenue_or_amount pf) deals)"
    "idcal st' = map hs_object_id deals"
    "margin st' = Some (num_net_revenue st' / num_amounts st' * 100)"
    "cost st' = Some (num_amounts st' - num_net_revenue st')"
    by (auto simp: init_state_def)
  then show ?thesis
    by (simp add: extract_data_def extract_data_alltime_def)
qed

theorem extract_data_base_currency_witness:
  "extract_data decimal_float
     [\<lparr>amount = PStr ''100'', hs_object_id = PStr ''1'', net_revenue = PStr ''50'',
       deal_currency_code = PStr ''AUD''\<rparr>,
      \<lparr>amount = PStr ''200'', hs_object_id = PStr ''2'', net_revenue = PNone,
       deal_currency_code = PStr ''AUD''\<rparr>] (Some 2) = Inr (100 * 250 / 300, 2) \<and>
   extract_data_alltime decimal_float
     [\<lparr>amount = PStr ''100'', hs_object_id = PStr ''1'', net_revenue = PStr ''50'',
       deal_currency_code = PStr ''AUD''\<rparr>,
      \<lparr>amount = PStr ''200'', hs_object_id = PStr ''2'', net_revenue = PNone,
       deal_currency_code = PStr ''AUD''\<rparr>] (Some 2) = Inr (100 * 250 / 300, 2, 300, 250, 50) \<and>
   py_round2 (100 * 250 / 300) = 83.33"
proof -
  let ?d1 = "\<lparr>amount = PStr ''100'', hs_object_id = PStr ''1'', net_revenue = PStr ''50'',
       deal_currency_code = PStr ''AUD''\<rparr>"
  let ?d2 = "\<lparr>amount = PStr ''200'', hs_object_id = PStr ''2'', net_revenue = PNone,
       deal_currency_code = PStr ''AUD''\<rparr>"
  have a: "amount_of decimal_float ?d1 = 100" "amount_of decimal_float ?d2 = 200"
    by (simp_all add: amount_of_def eval_defs)
  have n: "net_revenue_or_amount decimal_float ?d1 = 50" "net_revenue_or_amount decimal_float ?d2 = 200"
    by (simp_all add: net_revenue_or_amount_def amount_of_def eval_defs)
  have h1: "[?d1, ?d2] \<noteq> []" by simp
  have h2: "\<forall>d\<in>set [?d1, ?d2]. deal_currency_code d \<noteq> PStr ''NZD'' \<and> numeric_fields decimal_float d"
    by (simp add: numeric_fields_def eval_defs)
  have h3: "running_totals_nonzero decimal_float 0 [?d1, ?d2]"
    by (simp add: a)
  have r: "py_round2 (100 * 250 / 300) = 83.33"
    by (simp add: py_round2_def)
  show ?thesis
    using extract_data_base_currency [OF h1 h2 h3, of "Some 2"] r by (simp add: a n)
qed

text \<open>
  The claim as stated fails where the total is zero after a record that is not the last:
  the formula gives a margin of 50 on two records, the code raises at the first.
\<close>

theorem zero_prefix_counterexample:
  "extract_data decimal_float
     [\<lparr>amount = PStr ''0'', hs_object_id = PStr ''1'', net_revenue = PNone,
       deal_currency_code = PStr ''AUD''\<rparr>,
      \<lparr>amount = PStr ''100'', hs_object_id = PStr ''2'', net_revenue = PStr ''50'',
       deal_currency_code = PStr ''AUD''\<rparr>] None = Inl ZeroDivisionError \<and>
   extract_data decimal_float
     [\<lparr>amount = PStr ''0'', hs_object_id = PStr ''1'', net_revenue = PNone,
       deal_currency_code = PStr ''AUD''\<rparr>,
      \<lparr>amount = PStr ''100'', hs_object_id = PStr ''2'', net_revenue = PStr ''50'',
       deal_currency_code = PStr ''AUD''\<rparr>] None \<noteq> Inr (100 * (0 + 50) / (0 + 100), 2)"
  by (simp add: eval_defs)

section \<open>Deals in NZD\<close>

text \<open>
  Where the conversion does what it is meant to: a deal in NZD whose net revenue is the
  number \<open>R\<close>, aggregated into a state that its amount keeps away from a zero total,
  adds \<open>R / rate\<close> to the total net revenue when the rate is present and neither the rate
  nor \<open>R\<close> is zero, and adds \<open>R\<close> when the rate is absent and the net revenue is truthy.
\<close>

lemma nzd_contribution:
  assumes "deal_currency_code d = PStr ''NZD''"
    and "py_float pf (net_revenue d) = Inr R"
    and "py_float pf (amount d) = Inr a"
    and "num_amounts st + a \<noteq> 0"
  shows "(r \<noteq> 0 \<and> R \<noteq> 0 \<longrightarrow>
            deal_step pf (Some r) st d =
              Inr \<lparr>idcal = idcal st @ [hs_object_id d],
                   num_amounts = num_amounts st + a,
                   num_net_revenue = num_net_revenue st + R / r,
                   margin = Some ((num_net_revenue st + R / r) / (num_amounts st + a) * 100),
                   cost = Some (num_amounts st + a - (num_net_revenue st + R / r))\<rparr>) \<and>
         (truthy (net_revenue d) \<longrightarrow>
            deal_step pf None st d =
              Inr \<lparr>idcal = idcal st @ [hs_object_id d],
                   num_amounts = num_amounts st + a,
                   num_net_revenue = num_net_revenue st + R,
                   margin = Some ((num_net_revenue st + R) / (num_amounts st + a) * 100),
                   cost = Some (num_amounts st + a - (num_net_revenue st + R))\<rparr>)"
  using assms by (simp add: deal_step_def convert_nzd_def Let_def)

lemma nzd_contribution_example:
  "deal_step decimal_float (Some 2) init_state
     \<lparr>amount = PStr ''100'', hs_object_id = PStr ''1'', net_revenue = PStr ''100'',
      deal_currency_code = PStr ''NZD''\<rparr>
     = Inr \<lparr>idcal = [PStr ''1''], num_amounts = 100, num_net_revenue = 50,
            margin = Some 50, cost = Some 50\<rparr> \<and>
   deal_step decimal_float None init_state
     \<lparr>amount = PStr ''100'', hs_object_id = PStr ''1'', net_revenue = PStr ''100'',
      deal_currency_code = PStr ''NZD''\<rparr>
     = Inr \<lparr>idcal = [PStr ''1''], num_amounts = 100, num_net_revenue = 100,
            margin = Some 100, cost = Some 0\<rparr> \<and>
   extract_data decimal_float
     [\<lparr>amount = PStr ''100'', hs_object_id = PStr ''1'', net_revenue = PStr ''100'',
       deal_currency_code = PStr ''NZD''\<rparr>] (Some 2) = Inr (50, 1)"
proof -
  let ?d = "\<lparr>amount = PStr ''100'', hs_object_id = PStr ''1'', net_revenue = PStr ''100'',
      deal_currency_code = PStr ''NZD''\<rparr>"
  have h1: "deal_currency_code ?d = PStr ''NZD''" by simp
  have h2: "py_float decimal_float (net_revenue ?d) = Inr 100" by (simp add: eval_defs)
  have h3: "py_float decimal_float (amount ?d) = Inr 100" by (simp add: eval_defs)
  have h4: "num_amounts init_state + 100 \<noteq> (0::real)" by (simp add: init_state_def)
  have s: "deal_step decimal_float (Some 2) init_state ?d
     = Inr \<lparr>idcal = [PStr ''1''], num_amounts = 100, num_net_revenue = 50,
            margin = Some 50, cost = Some 50\<rparr>"
    "deal_step decimal_float None init_state ?d
     = Inr \<lparr>idcal = [PStr ''1''], num_amounts = 100, num_net_revenue = 100,
            margin = Some 100, cost = Some 0\<rparr>"
    using nzd_contribution [OF h1 h2 h3 h4, of 2] by (simp_all add: init_state_def)
  then show ?thesis
    by (simp add: extract_data_def)
qed

text \<open>
  Claim C4. A deal in NZD with net revenue \<open>R\<close> is to contribute \<open>R / rate\<close> when the rate
  is present. At \<open>R = 0\<close> it does not: \<open>if net_revenue:\<close> is tested after the conversion,
  on the float \<open>0.0\<close>, which is falsy, and the deal adds its amount (100) to the total net
  revenue instead of 0, for a margin of 100 instead of 0. The same deal with the rate
  absent, or in another currency, adds 0: there the test is made on the string \<open>"0"\<close>.
\<close>

theorem nzd_zero_net_revenue_uses_amount:
  "extract_data_alltime decimal_float
     [\<lparr>amount = PStr ''100'', hs_object_id = PStr ''1'', net_revenue = PStr ''0'',
       deal_currency_code = PStr ''NZD''\<rparr>] (Some 2) = Inr (100, 1, 100, 100, 0) \<and>
   extract_data_alltime decimal_float
     [\<lparr>amount = PStr ''100'', hs_object_id = PStr ''1'', net_revenue = PStr ''0'',
       deal_currency_code = PStr ''NZD''\<rparr>] None = Inr (0, 1, 100, 0, 100) \<and>
   extract_data_alltime decimal_float
     [\<lparr>amount = PStr ''100'', hs_object_id = PStr ''1'', net_revenue = PStr ''0'',
       deal_currency_code = PStr ''AUD''\<rparr>] (Some 2) = Inr (0, 1, 100, 0, 100) \<and>
   extract_data decimal_float
     [\<lparr>amount = PStr ''100'', hs_object_id = PStr ''1'', net_revenue = PStr ''0'',
       deal_currency_code = PStr ''NZD''\<rparr>] (Some 2) = Inr (100, 1)"
  by (simp add: eval_defs)

section \<open>A missing net revenue\<close>

text \<open>
  Claim C5. A deal in NZD without net revenue, with the rate present: \<open>float(None)\<close>
  raises \<open>TypeError\<close> (and \<open>float('')\<close> raises \<open>ValueError\<close>) before the fallback to the
  amount is reached; with the rate absent, or in another currency, the same deal
  contributes its amount and the margin is 100.
\<close>

theorem missing_net_revenue_nzd_raises:
  "extract_data decimal_float
     [\<lparr>amount = PStr ''100'', hs_object_id = PStr ''1'', net_revenue = PNone,
       deal_currency_code = PStr ''NZD''\<rparr>] (Some 2) = Inl TypeError \<and>
   extract_data decimal_float
     [\<lparr>amount = PStr ''100'', hs_object_id = PStr ''1'', net_revenue = PStr '''',
       deal_currency_code = PStr ''NZD''\<rparr>] (Some 2) = Inl ValueError \<and>
   extract_data decimal_float
     [\<lparr>amount = PStr ''100'', hs_object_id = PStr ''1'', net_revenue = PNone,
       deal_currency_code = PStr ''NZD''\<rparr>] None = Inr (100, 1) \<and>
   extract_data decimal_float
     [\<lparr>amount = PStr ''100'', hs_object_id = PStr ''1'', net_revenue = PNone,
       deal_currency_code = PStr ''AUD''\<rparr>] (Some 2) = Inr (100, 1)"
  by (simp add: eval_defs)

section \<open>Monotonicity of the totals\<close>

text \<open>
  Claim C9, as amended. Every record that is aggregated adds one to the count, whatever
  its signs; the total amount and the total net revenue do not decrease at a record whose
  amount is not negative, whose net revenue, when a number, is not negative, under a rate
  that, when present, is not negative.
\<close>

theorem aggregation_monotone:
  assumes "deal_step pf rate st d = Inr st'"
  shows "length (idcal st') = length (idcal st) + 1 \<and>
         (0 \<le> amount_of pf d \<and>
          (\<forall>x. py_float pf (net_revenue d) = Inr x \<longrightarrow> 0 \<le> x) \<and>
          (\<forall>r. rate = Some r \<longrightarrow> 0 \<le> r) \<longrightarrow>
            num_amounts st \<le> num_amounts st' \<and> num_net_revenue st \<le> num_net_revenue st')"
proof
  show "length (idcal st') = length (idcal st) + 1"
    using assms
    by (auto simp: deal_step_def Let_def split: sum.splits if_splits)
next
  show "0 \<le> amount_of pf d \<and>
          (\<forall>x. py_float pf (net_revenue d) = Inr x \<longrightarrow> 0 \<le> x) \<and>
          (\<forall>r. rate = Some r \<longrightarrow> 0 \<le> r) \<longrightarrow>
            num_amounts st \<le> num_amounts st' \<and> num_net_revenue st \<le> num_net_revenue st'"
    using assms
    by (auto simp: deal_step_def convert_nzd_def amount_of_def Let_def
        split: sum.splits if_splits option.splits)
qed

theorem aggregation_monotone_witness:
  "deal_step decimal_float (Some 2)
     \<lparr>idcal = [PStr ''1''], num_amounts = 100, num_net_revenue = 50,
      margin = Some 50, cost = Some 50\<rparr>
     \<lparr>amount = PStr ''30'', hs_object_id = PStr ''3'', net_revenue = PStr ''20'',
      deal_currency_code = PStr ''NZD''\<rparr>
     = Inr \<lparr>idcal = [PStr ''1'', PStr ''3''], num_amounts = 130, num_net_revenue = 60,
            margin = Some (600 / 13), cost = Some 70\<rparr> \<and>
   length [PStr ''1'', PStr ''3''] = length [PStr ''1''] + 1 \<and>
   (100::real) \<le> 130 \<and> (50::real) \<le> 60 \<and>
   deal_step decimal_float (Some 2)
     \<lparr>idcal = [PStr ''1''], num_amounts = 100, num_net_revenue = 50,
      margin = Some 50, cost = Some 50\<rparr>
     \<lparr>amount = PStr ''-40'', hs_object_id = PStr ''2'', net_revenue = PStr ''-10'',
      deal_currency_code = PStr ''AUD''\<rparr>
     = Inr \<lparr>idcal = [PStr ''1'', PStr ''2''], num_amounts = 60, num_net_revenue = 40,
            margin = Some (200 / 3), cost = Some 20\<rparr> \<and>
   length [PStr ''1'', PStr ''2''] = length [PStr ''1''] + 1"
proof -
  let ?st = "\<lparr>idcal = [PStr ''1''], num_amounts = 100, num_net_revenue = 50,
      margin = Some 50, cost = Some 50\<rparr>"
  let ?d = "\<lparr>amount = PStr ''30'', hs_object_id = PStr ''3'', net_revenue = PStr ''20'',
      deal_currency_code = PStr ''NZD''\<rparr>"
  let ?st2 = "\<lparr>idcal = [PStr ''1'', PStr ''3''], num_amounts = 130, num_net_revenue = 60,
            margin = Some (600 / 13), cost = Some 70\<rparr>"
  let ?n = "\<lparr>amount = PStr ''-40'', hs_object_id = PStr ''2'', net_revenue = PStr ''-10'',
      deal_currency_code = PStr ''AUD''\<rparr>"
  let ?st3 = "\<lparr>idcal = [PStr ''1'', PStr ''2''], num_amounts = 60, num_net_revenue = 40,
            margin = Some (200 / 3), cost = Some 20\<rparr>"
  have h1: "deal_step decimal_float (Some 2) ?st ?d = Inr ?st2"
    by (simp add: eval_defs)
  have h2: "0 \<le> amount_of decimal_float ?d"
    by (simp add: amount_of_def eval_defs)
  have h3: "\<forall>x. py_float decimal_float (net_revenue ?d) = Inr x \<longrightarrow> 0 \<le> x"
    by (simp add: eval_defs)
  have h4: "\<forall>r. Some (2::real) = Some r \<longrightarrow> 0 \<le> r"
    by simp
  have n1: "deal_step decimal_float (Some 2) ?st ?n = Inr ?st3"
    by (simp add: eval_defs)
  have a: "length (idcal ?st2) = length (idcal ?st) + 1 \<and>
           num_amounts ?st \<le> num_amounts ?st2 \<and> num_net_revenue ?st \<le> num_net_revenue ?st2"
    using aggregation_monotone [OF h1] h2 h3 h4 by blast
  have b: "length (idcal ?st3) = length (idcal ?st) + 1"
    using aggregation_monotone [OF n1] by blast
  show ?thesis
    using h1 n1 a b by simp
qed

text \<open>
  The claim as stated fails at a negative amount: the totals go from 100 and 50 down to
  60 and 40.
\<close>

theorem negative_amount_counterexample:
  "deal_step decimal_float None
     \<lparr>idcal = [PStr ''1''], num_amounts = 100, num_net_revenue = 50,
      margin = Some 50, cost = Some 50\<rparr>
     \<lparr>amount = PStr ''-40'', hs_object_id = PStr ''2'', net_revenue = PStr ''-10'',
      deal_currency_code = PStr ''AUD''\<rparr>
     = Inr \<lparr>idcal = [PStr ''1'', PStr ''2''], num_amounts = 60, num_net_revenue = 40,
            margin = Some (200 / 3), cost = Some 20\<rparr> \<and>
   (60::real) < 100 \<and> (40::real) < 50"
  by (simp add: eval_defs)

section \<open>Facts about the scan of the first column\<close>

lemma scan_rows_unfold:
  "scan_rows ws row =
     (if row \<le> row_count ws then
        (if row < 1 then Inl IncorrectCellLabel
         else (case first_col ws row of
                 None \<Rightarrow> Inr (Some row)
               | Some v \<Rightarrow> scan_rows ws (row + 1)))
      else Inr None)"
  by (subst scan_rows.simps) (simp add: cell_value_def)

lemma scan_rows_Some:
  "scan_rows ws row = Inr (Some r) \<Longrightarrow>
     row \<le> r \<and> r \<le> row_count ws \<and> first_col ws r = None \<and>
     (\<forall>k. row \<le> k \<and> k < r \<longrightarrow> first_col ws k \<noteq> None)"
proof (induction ws row rule: scan_rows.induct)
  case (1 ws row)
  have u: "scan_rows ws row =
     (if row \<le> row_count ws then
        (if row < 1 then Inl IncorrectCellLabel
         else (case first_col ws row of
                 None \<Rightarrow> Inr (Some row)
               | Some v \<Rightarrow> scan_rows ws (row + 1)))
      else Inr None)"
    by (rule scan_rows_unfold)
  from "1.prems" u have le: "row \<le> row_count ws" and ge: "\<not> row < 1"
    by (auto split: if_splits)
  show ?case
  proof (cases "first_col ws row")
    case None
    with "1.prems" u le ge have "r = row" by simp
    then show ?thesis using None le by auto
  next
    case (Some s)
    with "1.prems" u le ge have rec: "scan_rows ws (row + 1) = Inr (Some r)"
      by simp
    have cv: "cell_value ws row = Inr (Some s)"
      using ge Some by (simp add: cell_value_def)
    have lt: "row < row_count ws + 1" using le by simp
    from "1.IH"[OF lt cv refl rec]
    have ih: "row + 1 \<le> r \<and> r \<le> row_count ws \<and> first_col ws r = None \<and>
        (\<forall>k. row + 1 \<le> k \<and> k < r \<longrightarrow> first_col ws k \<noteq> None)" .
    have "first_col ws k \<noteq> None" if k: "row \<le> k \<and> k < r" for k
    proof (cases "k = row")
      case True
      then show ?thesis using Some by simp
    next
      case False
      then have "row + 1 \<le> k \<and> k < r" using k by simp
      then show ?thesis using ih by blast
    qed
    then show ?thesis using ih by auto
  qed
qed

lemma scan_rows_None:
  "scan_rows ws row = Inr None \<Longrightarrow>
     (\<forall>k. row \<le> k \<and> k \<le> row_count ws \<longrightarrow> first_col ws k \<noteq> None)"
proof (induction ws row rule: scan_rows.induct)
  case (1 ws row)
  have u: "scan_rows ws row =
     (if row \<le> row_count ws then
        (if row < 1 then Inl IncorrectCellLabel
         else (case first_col ws row of
                 None \<Rightarrow> Inr (Some row)
               | Some v \<Rightarrow> scan_rows ws (row + 1)))
      else Inr None)"
    by (rule scan_rows_unfold)
  show ?case
  proof (cases "row \<le> row_count ws")
    case False
    then show ?thesis by auto
  next
    case True
    note le = True
    from "1.prems" u le have ge: "\<not> row < 1"
      by (auto split: if_splits)
    from "1.prems" u le ge obtain s where Some: "first_col ws row = Some s"
      by (cases "first_col ws row") auto
    with "1.prems" u le ge have rec: "scan_rows ws (row + 1) = Inr None"
      by simp
    have cv: "cell_value ws row = Inr (Some s)"
      using ge Some by (simp add: cell_value_def)
    have lt: "row < row_count ws + 1" using le by simp
    from "1.IH"[OF lt cv refl rec]
    have ih: "\<forall>k. row + 1 \<le> k \<and> k \<le> row_count ws \<longrightarrow> first_col ws k \<noteq> None" .
    have "first_col ws k \<noteq> None" if k: "row \<le> k \<and> k \<le> row_count ws" for k
    proof (cases "k = row")
      case True
      then show ?thesis using Some by simp
    next
      case False
      then have "row + 1 \<le> k \<and> k \<le> row_count ws" using k by simp
      then show ?thesis using ih by blast
    qed
    then show ?thesis by blast
  qed
qed

lemma scan_rows_no_error:
  "1 \<le> row \<Longrightarrow> scan_rows ws row \<noteq> Inl e"
proof (induction ws row rule: scan_rows.induct)
  case (1 ws row)
  have u: "scan_rows ws row =
     (if row \<le> row_count ws then
        (if row < 1 then Inl IncorrectCellLabel
         else (case first_col ws row of
                 None \<Rightarrow> Inr (Some row)
               | Some v \<Rightarrow> scan_rows ws (row + 1)))
      else Inr None)"
    by (rule scan_rows_unfold)
  show ?case
  proof (cases "row \<le> row_count ws")
    case False
    then show ?thesis using u by simp
  next
    case True
    note le = True
    have lt: "row < row_count ws + 1" using le by simp
    show ?thesis
    proof (cases "first_col ws row")
      case None
      then show ?thesis using u le "1.prems" by simp
    next
      case (Some s)
      have cv: "cell_value ws row = Inr (Some s)"
        using "1.prems" Some by (simp add: cell_value_def)
      have "scan_rows ws (row + 1) \<noteq> Inl e"
        using "1.IH"[OF lt cv refl] "1.prems" by simp
      then show ?thesis using u le "1.prems" Some by simp
    qed
  qed
qed

lemma get_next_open_row_Number:
  assumes "content f = Number c" and "writable f"
  shows "get_next_open_row f ws = (scan_rows ws c, f\<lparr>content := Number (c + 1)\<rparr>)"
  using assms by (simp add: get_next_open_row_def increment_file_number_def)

section \<open>The row cursor\<close>

text \<open>
  Claim C6. On a counter file that holds the integer \<open>c\<close> and can be written, a call
  reads \<open>c\<close> and persists \<open>c + 1\<close> before the scan and whatever the scan yields; the
  second of two calls on the same worksheet leaves \<open>c + 2\<close>, and a row returned by the
  first call is at least \<open>c\<close>, one returned by the second at least \<open>c + 1\<close>.
\<close>

theorem row_counter_advances:
  assumes "content f = Number c" and "writable f"
  shows "increment_file_number f = (Inr c, f\<lparr>content := Number (c + 1)\<rparr>) \<and>
         snd (get_next_open_row f ws) = f\<lparr>content := Number (c + 1)\<rparr> \<and>
         snd (get_next_open_row (snd (get_next_open_row f ws)) ws) = f\<lparr>content := Number (c + 2)\<rparr> \<and>
         (\<forall>row. fst (get_next_open_row f ws) = Inr (Some row) \<longrightarrow> c \<le> row) \<and>
         (\<forall>row. fst (get_next_open_row (snd (get_next_open_row f ws)) ws) = Inr (Some row)
            \<longrightarrow> c + 1 \<le> row)"
proof -
  let ?f1 = "f\<lparr>content := Number (c + 1)\<rparr>"
  have g1: "get_next_open_row f ws = (scan_rows ws c, ?f1)"
    using assms by (rule get_next_open_row_Number)
  have "content ?f1 = Number (c + 1)" and "writable ?f1"
    using assms(2) by simp_all
  then have g2: "get_next_open_row ?f1 ws = (scan_rows ws (c + 1), ?f1\<lparr>content := Number (c + 1 + 1)\<rparr>)"
    by (rule get_next_open_row_Number)
  have i: "increment_file_number f = (Inr c, ?f1)"
    using assms by (simp add: increment_file_number_def)
  have r1: "\<forall>row. scan_rows ws c = Inr (Some row) \<longrightarrow> c \<le> row"
    using scan_rows_Some by blast
  have r2: "\<forall>row. scan_rows ws (c + 1) = Inr (Some row) \<longrightarrow> c + 1 \<le> row"
    using scan_rows_Some by blast
  show ?thesis
    using i r1 r2 by (simp add: g1 g2)
qed

theorem row_counter_advances_witness:
  "get_next_open_row \<lparr>content = Number 3, writable = True\<rparr>
     \<lparr>row_count = 10, first_col = (\<lambda>r. if r < 5 then Some ''2024-01-01'' else None)\<rparr>
     = (Inr (Some 5), \<lparr>content = Number 4, writable = True\<rparr>) \<and>
   get_next_open_row \<lparr>content = Number 4, writable = True\<rparr>
     \<lparr>row_count = 10, first_col = (\<lambda>r. if r < 5 then Some ''2024-01-01'' else None)\<rparr>
     = (Inr (Some 5), \<lparr>content = Number 5, writable = True\<rparr>) \<and>
   (3::int) \<le> 5 \<and> (3::int) + 1 \<le> 5"
proof -
  let ?f = "\<lparr>content = Number 3, writable = True\<rparr>"
  let ?ws = "\<lparr>row_count = 10, first_col = (\<lambda>r. if r < 5 then Some ''2024-01-01'' else None)\<rparr>"
  have h1: "content ?f = Number 3" by simp
  have h2: "writable ?f" by simp
  have s1: "get_next_open_row ?f ?ws = (Inr (Some 5), \<lparr>content = Number 4, writable = True\<rparr>)"
    by (simp add: get_next_open_row_def increment_file_number_def scan_rows_unfold)
  have s2: "get_next_open_row \<lparr>content = Number 4, writable = True\<rparr> ?ws
              = (Inr (Some 5), \<lparr>content = Number 5, writable = True\<rparr>)"
    by (simp add: get_next_open_row_def increment_file_number_def scan_rows_unfold)
  show ?thesis
    using row_counter_advances [OF h1 h2, of ?ws] s1 s2
    by simp
qed

text \<open>
  Claim C7. From a cursor \<open>c\<close> of at least 1, \<open>get_next_open_row\<close> returns the row \<open>r\<close>
  exactly when \<open>r\<close> is the first row from \<open>c\<close> up to \<open>row_count\<close> whose first-column
  cell is empty, and returns \<open>None\<close> ("sheet full") exactly when no cell in that range
  is empty.
\<close>

theorem next_open_row_first_empty:
  assumes "content f = Number c" and "writable f" and "1 \<le> c"
  shows "(\<forall>r. fst (get_next_open_row f ws) = Inr (Some r) \<longleftrightarrow>
              (c \<le> r \<and> r \<le> row_count ws \<and> first_col ws r = None \<and>
               (\<forall>k. c \<le> k \<and> k < r \<longrightarrow> first_col ws k \<noteq> None))) \<and>
         (fst (get_next_open_row f ws) = Inr None \<longleftrightarrow>
              (\<forall>k. c \<le> k \<and> k \<le> row_count ws \<longrightarrow> first_col ws k \<noteq> None))"
proof -
  have g: "fst (get_next_open_row f ws) = scan_rows ws c"
    using assms(1,2) by (simp add: get_next_open_row_Number)
  have ne: "scan_rows ws c \<noteq> Inl e" for e
    using assms(3) by (rule scan_rows_no_error)
  have some: "scan_rows ws c = Inr (Some r)"
    if r: "c \<le> r \<and> r \<le> row_count ws \<and> first_col ws r = None \<and>
           (\<forall>k. c \<le> k \<and> k < r \<longrightarrow> first_col ws k \<noteq> None)" for r
  proof (cases "scan_rows ws c")
    case (Inl e)
    then show ?thesis using ne by blast
  next
    case (Inr v)
    show ?thesis
    proof (cases v)
      case None
      then have "first_col ws r \<noteq> None"
        using scan_rows_None[of ws c] Inr r by blast
      then show ?thesis using r by simp
    next
      case (Some r')
      then have r': "c \<le> r' \<and> r' \<le> row_count ws \<and> first_col ws r' = None \<and>
           (\<forall>k. c \<le> k \<and> k < r' \<longrightarrow> first_col ws k \<noteq> None)"
        using scan_rows_Some[of ws c r'] Inr by simp
      have "\<not> r < r'" using r r' by blast
      moreover have "\<not> r' < r" using r r' by blast
      ultimately have "r' = r" by simp
      then show ?thesis using Inr Some by simp
    qed
  qed
  have none: "scan_rows ws c = Inr None"
    if full: "\<forall>k. c \<le> k \<and> k \<le> row_count ws \<longrightarrow> first_col ws k \<noteq> None"
  proof (cases "scan_rows ws c")
    case (Inl e)
    then show ?thesis using ne by blast
  next
    case (Inr v)
    show ?thesis
    proof (cases v)
      case None
      then show ?thesis using Inr by simp
    next
      case (Some r')
      then have "c \<le> r' \<and> r' \<le> row_count ws \<and> first_col ws r' = None"
        using scan_rows_Some[of ws c r'] Inr by simp
      then show ?thesis using full by blast
    qed
  qed
  show ?thesis
    unfolding g using some none scan_rows_Some[of ws c] scan_rows_None[of ws c] by blast
qed

theorem next_open_row_first_empty_witness:
  "fst (get_next_open_row \<lparr>content = Number 2, writable = True\<rparr>
     \<lparr>row_count = 6, first_col = (\<lambda>r. if r = 4 \<or> r = 6 then None else Some ''2024-01-01'')\<rparr>)
     = Inr (Some 4) \<and>
   fst (get_next_open_row \<lparr>content = Number 2, writable = True\<rparr>
     \<lparr>row_count = 3, first_col = (\<lambda>r. if r = 4 \<or> r = 6 then None else Some ''2024-01-01'')\<rparr>)
     = Inr None"
proof -
  let ?f = "\<lparr>content = Number 2, writable = True\<rparr>"
  let ?c = "\<lambda>r::int. if r = 4 \<or> r = 6 then None else Some ''2024-01-01''"
  have h1: "content ?f = Number 2" by simp
  have h2: "writable ?f" by simp
  have h3: "(1::int) \<le> 2" by simp
  have a: "(2::int) \<le> 4 \<and> 4 \<le> row_count \<lparr>row_count = 6, first_col = ?c\<rparr> \<and>
       first_col \<lparr>row_count = 6, first_col = ?c\<rparr> 4 = None \<and>
       (\<forall>k. 2 \<le> k \<and> k < 4 \<longrightarrow> first_col \<lparr>row_count = 6, first_col = ?c\<rparr> k \<noteq> None)"
    by simp
  have b: "\<forall>k. 2 \<le> k \<and> k \<le> row_count \<lparr>row_count = 3, first_col = ?c\<rparr>
       \<longrightarrow> first_col \<lparr>row_count = 3, first_col = ?c\<rparr> k \<noteq> None"
    by simp
  show ?thesis
    using next_open_row_first_empty [OF h1 h2 h3, of "\<lparr>row_count = 6, first_col = ?c\<rparr>"]
      next_open_row_first_empty [OF h1 h2 h3, of "\<lparr>row_count = 3, first_col = ?c\<rparr>"] a b
    by blast
qed

section \<open>Termination of the pagination loop\<close>

lemma fetch_loop_stops:
  "length answer mod 100 \<noteq> 0 \<Longrightarrow> fetch_loop fd answer = Some answer"
  by (subst fetch_loop.simps) simp

lemma fetch_loop_continues:
  "length answer mod 100 = 0 \<Longrightarrow>
     fetch_loop fd answer = fetch_loop fd (answer @ fd ''after'' (length answer))"
  by (subst fetch_loop.simps) simp

lemma fetch_loop_terminates:
  "length (answer_after fd answer n) mod 100 \<noteq> 0 \<Longrightarrow>
     \<exists>m\<le>n. fetch_loop fd answer = Some (answer_after fd answer m) \<and>
            length (answer_after fd answer m) mod 100 \<noteq> 0"
proof (induction n arbitrary: answer)
  case 0
  then show ?case by (simp add: fetch_loop_stops)
next
  case (Suc n)
  show ?case
  proof (cases "length answer mod 100 = 0")
    case False
    then have "fetch_loop fd answer = Some (answer_after fd answer 0) \<and>
            length (answer_after fd answer 0) mod 100 \<noteq> 0"
      by (simp add: fetch_loop_stops)
    then show ?thesis by blast
  next
    case True
    let ?a = "answer @ fd ''after'' (length answer)"
    from Suc.prems have "length (answer_after fd ?a n) mod 100 \<noteq> 0" by simp
    from Suc.IH[OF this] obtain m where m: "m \<le> n"
      "fetch_loop fd ?a = Some (answer_after fd ?a m)"
      "length (answer_after fd ?a m) mod 100 \<noteq> 0" by blast
    have "fetch_loop fd answer = Some (answer_after fd answer (Suc m))"
      using fetch_loop_continues[OF True, of fd] m(2) by simp
    moreover have "length (answer_after fd answer (Suc m)) mod 100 \<noteq> 0"
      using m(3) by simp
    ultimately show ?thesis using m(1) by (intro exI[of _ "Suc m"]) simp
  qed
qed

lemma fetch_loop_result:
  assumes "fetch_loop fd answer = Some res"
  shows "\<exists>n. res = answer_after fd answer n \<and> length res mod 100 \<noteq> 0"
proof (rule fetch_loop.raw_induct
    [where P = "\<lambda>fd answer res. \<exists>n. res = answer_after fd answer n \<and> length res mod 100 \<noteq> 0",
     OF _ assms])
  fix loop :: "(string \<Rightarrow> nat \<Rightarrow> deal list) \<Rightarrow> deal list \<Rightarrow> deal list option"
  fix fd answer res
  assume IH: "\<And>fd answer y. loop fd answer = Some y \<Longrightarrow>
                \<exists>n. y = answer_after fd answer n \<and> length y mod 100 \<noteq> 0"
  assume eq: "(if length answer mod 100 = 0
               then loop fd (answer @ fd ''after'' (length answer))
               else Some answer) = Some res"
  show "\<exists>n. res = answer_after fd answer n \<and> length res mod 100 \<noteq> 0"
  proof (cases "length answer mod 100 = 0")
    case True
    with eq have "loop fd (answer @ fd ''after'' (length answer)) = Some res"
      by simp
    from IH[OF this] obtain n where
      r: "res = answer_after fd (answer @ fd ''after'' (length answer)) n"
      and l: "length res mod 100 \<noteq> 0"
      by blast
    have "answer_after fd answer (Suc n)
            = answer_after fd (answer @ fd ''after'' (length answer)) n"
      by simp
    then have "res = answer_after fd answer (Suc n)" using r by simp
    then show ?thesis using l by blast
  next
    case False
    with eq have "res = answer_after fd answer 0 \<and> length res mod 100 \<noteq> 0" by auto
    then show ?thesis by blast
  qed
qed

lemma answer_after_stuck:
  "fd ''after'' (length answer) = [] \<Longrightarrow> answer_after fd answer n = answer"
  by (induction n arbitrary: answer) simp_all

text \<open>
  Claim C10. The loop returns exactly when the list fetched so far has, after some
  number of passes, a length that is not a multiple of 100; while the length is a
  multiple of 100 it fetches again; and from a length that is a multiple of 100 (zero
  included) with an empty next page it never returns.
\<close>

theorem pagination_terminates_iff:
  "((\<exists>res. fetch_loop fd answer = Some res) \<longleftrightarrow>
      (\<exists>n. length (answer_after fd answer n) mod 100 \<noteq> 0)) \<and>
   (length answer mod 100 = 0 \<longrightarrow>
      fetch_loop fd answer = fetch_loop fd (answer @ fd ''after'' (length answer))) \<and>
   (length answer mod 100 = 0 \<and> fd ''after'' (length answer) = [] \<longrightarrow>
      fetch_loop fd answer = None)"
proof (intro conjI impI)
  show "(\<exists>res. fetch_loop fd answer = Some res) \<longleftrightarrow>
      (\<exists>n. length (answer_after fd answer n) mod 100 \<noteq> 0)"
    using fetch_loop_result[of fd answer] fetch_loop_terminates[of fd answer] by blast
next
  assume "length answer mod 100 = 0"
  then show "fetch_loop fd answer = fetch_loop fd (answer @ fd ''after'' (length answer))"
    by (rule fetch_loop_continues)
next
  assume a: "length answer mod 100 = 0 \<and> fd ''after'' (length answer) = []"
  show "fetch_loop fd answer = None"
  proof (cases "fetch_loop fd answer")
    case None
    then show ?thesis .
  next
    case (Some res)
    then obtain n where "res = answer_after fd answer n" "length res mod 100 \<noteq> 0"
      using fetch_loop_result by blast
    then show ?thesis using a answer_after_stuck[of fd answer n] by simp
  qed
qed

theorem pagination_terminates_iff_witness:
  "fetch_all (\<lambda>page n. []) = None \<and>
   fetch_all (\<lambda>page n. if page = ''limit'' then
      [\<lparr>amount = PStr ''100'', hs_object_id = PStr ''1'', net_revenue = PStr ''50'',
        deal_currency_code = PStr ''AUD''\<rparr>] else [])
    = Some [\<lparr>amount = PStr ''100'', hs_object_id = PStr ''1'', net_revenue = PStr ''50'',
        deal_currency_code = PStr ''AUD''\<rparr>]"
proof -
  let ?d = "\<lparr>amount = PStr ''100'', hs_object_id = PStr ''1'', net_revenue = PStr ''50'',
        deal_currency_code = PStr ''AUD''\<rparr>"
  let ?fd0 = "\<lambda>(page::string) (n::nat). ([] :: deal list)"
  let ?fd1 = "\<lambda>(page::string) (n::nat). if page = ''limit'' then [?d] else []"
  have h0: "length (?fd0 ''limit'' 100) mod 100 = 0 \<and>
            ?fd0 ''after'' (length (?fd0 ''limit'' 100)) = []"
    by simp
  have n0: "fetch_loop ?fd0 (?fd0 ''limit'' 100) = None"
    using pagination_terminates_iff [of ?fd0 "?fd0 ''limit'' 100"] h0 by blast
  have h1: "\<exists>n. length (answer_after ?fd1 (?fd1 ''limit'' 100) n) mod 100 \<noteq> 0"
    by (rule exI[of _ 0]) simp
  have "\<exists>res. fetch_loop ?fd1 (?fd1 ''limit'' 100) = Some res"
    using pagination_terminates_iff [of ?fd1 "?fd1 ''limit'' 100"] h1 by blast
  then obtain res where res: "fetch_loop ?fd1 (?fd1 ''limit'' 100) = Some res" by blast
  have "fetch_loop ?fd1 (?fd1 ''limit'' 100) = Some (?fd1 ''limit'' 100)"
    by (rule fetch_loop_stops) simp
  then have s1: "fetch_loop ?fd1 (?fd1 ''limit'' 100) = Some [?d]"
    by simp
  show ?thesis
    unfolding fetch_all_def using n0 s1 res by simp
qed

section \<open>The order of the results and the layout of the report\<close>

lemma stage_loop_cells:
  assumes "stage_loop pf fd rate start end_date stages (ms, ts) = Inr (ms', ts')"
    and "length ms = length ts"
  shows "length ms' = length ts' \<and>
         map Inr (zip ms' ts') =
           map Inr (zip ms ts) @ map (\<lambda>sc. cell_of pf fd rate ((quarter, start, end_date), sc)) stages"
  using assms
proof (induction stages arbitrary: ms ts)
  case Nil
  then show ?case by simp
next
  case (Cons sc rest)
  let ?all = "fd start end_date sc ''limit'' @ fd start end_date sc ''after''"
  show ?case
  proof (cases "?all = []")
    case True
    then have c: "cell_of pf fd rate ((quarter, start, end_date), sc) = Inr (NA, NA)"
      by (simp add: cell_of_def)
    from Cons.prems(1) True
    have "stage_loop pf fd rate start end_date rest (ms @ [NA], ts @ [NA]) = Inr (ms', ts')"
      by simp
    from Cons.IH[OF this] Cons.prems(2) show ?thesis
      by (simp add: c)
  next
    case False
    with Cons.prems(1) obtain m tot where ex: "extract_data pf ?all rate = Inr (m, tot)"
      by (cases "extract_data pf ?all rate") (auto simp: Let_def)
    then have c: "cell_of pf fd rate ((quarter, start, end_date), sc) = Inr (Val m, Val tot)"
      using False by (simp add: cell_of_def Let_def)
    from Cons.prems(1) False ex
    have "stage_loop pf fd rate start end_date rest (ms @ [Val m], ts @ [Val tot]) = Inr (ms', ts')"
      by (simp add: Let_def)
    from Cons.IH[OF this] Cons.prems(2) show ?thesis
      by (simp add: c)
  qed
qed

lemma quarter_loop_cells:
  assumes "quarter_loop pf fd rate deal_stage qs (ms, ts) = Inr (ms', ts')"
    and "length ms = length ts"
  shows "length ms' = length ts' \<and>
         map Inr (zip ms' ts') =
           map Inr (zip ms ts)
           @ map (cell_of pf fd rate) (concat (map (\<lambda>q. map (\<lambda>sc. (q, sc)) deal_stage) qs))"
  using assms
proof (induction qs arbitrary: ms ts)
  case Nil
  then show ?case by simp
next
  case (Cons q qs)
  obtain quarter start end_date where q: "q = (quarter, start, end_date)"
    by (cases q) auto
  from Cons.prems(1) q obtain ms1 ts1 where
    s: "stage_loop pf fd rate start end_date deal_stage (ms, ts) = Inr (ms1, ts1)"
    and r: "quarter_loop pf fd rate deal_stage qs (ms1, ts1) = Inr (ms', ts')"
    by (cases "stage_loop pf fd rate start end_date deal_stage (ms, ts)") auto
  from stage_loop_cells[OF s Cons.prems(2), of quarter]
  have l1: "length ms1 = length ts1"
    and z1: "map Inr (zip ms1 ts1) =
           map Inr (zip ms ts) @ map (\<lambda>sc. cell_of pf fd rate ((quarter, start, end_date), sc)) deal_stage"
    by simp_all
  from Cons.IH[OF r l1] z1 show ?case
    by (simp add: q comp_def)
qed

lemma write_loop_layout:
  "write_loop (2 + v mod 3) (1 + v div 3) v sheet zs =
     sheet @ map (\<lambda>k. (65 + (1 + (v + k) div 3), 2 + (v + k) mod 3, report_of (zs ! k)))
               [0..<length zs]"
proof (induction zs arbitrary: v sheet)
  case Nil
  then show ?case by simp
next
  case (Cons z zs)
  obtain m tot where z: "z = (m, tot)" by (cases z) auto
  have rep: "(case m of Val x \<Rightarrow> Report (py_round2 x) tot | NA \<Rightarrow> ReportNA) = report_of (m, tot)"
    by (cases m) (simp_all add: report_of_def)
  let ?w = "(65 + (1 + v div 3), 2 + v mod 3, report_of (m, tot))"
  have next_state: "write_loop (2 + v mod 3) (1 + v div 3) v sheet ((m, tot) # zs) =
      write_loop (2 + Suc v mod 3) (1 + Suc v div 3) (Suc v) (sheet @ [?w]) zs"
  proof (cases "Suc v mod 3 = 0")
    case True
    then have "Suc v div 3 = Suc (v div 3)" by presburger
    then show ?thesis using True by (simp add: Let_def rep numeral_2_eq_2)
  next
    case False
    then have "Suc v div 3 = v div 3" and "Suc v mod 3 = Suc (v mod 3)" by presburger+
    then show ?thesis using False by (simp add: Let_def rep)
  qed
  have shift: "map (\<lambda>k. (65 + (1 + (v + k) div 3), 2 + (v + k) mod 3, report_of (((m, tot) # zs) ! k)))
                 [0..<length ((m, tot) # zs)]
      = ?w # map (\<lambda>k. (65 + (1 + (Suc v + k) div 3), 2 + (Suc v + k) mod 3, report_of (zs ! k)))
                 [0..<length zs]"
    by (simp add: map_upt_Suc del: upt_Suc)
  show ?case
    unfolding z next_state Cons.IH[of "Suc v" "sheet @ [?w]"] shift by simp
qed

text \<open>
  Claim C8. The results of \<open>alltime\<close> are the cells of the pairs (period, stage
  category) with the period as the outer index and the category as the inner one; the
  writer puts the result number \<open>k\<close> (from 0) into the column of index \<open>1 + k div 3\<close>
  (letter \<open>chr(65 + col)\<close>) at row \<open>2 + k mod 3\<close>: three results down a column, then
  the next column.
\<close>

theorem report_layout:
  assumes "alltime pf fd deal_stage quarterstart quarterend financialstart financialend rate
             = Inr (margins, totals)"
  shows "map Inr (zip margins totals) =
           map (cell_of pf fd rate)
             (concat (map (\<lambda>q. map (\<lambda>sc. (q, sc)) deal_stage)
                (quarters quarterstart quarterend financialstart financialend))) \<and>
         write_loop 2 1 0 [] (zip margins totals) =
           map (\<lambda>k. (65 + (1 + k div 3), 2 + k mod 3, report_of (zip margins totals ! k)))
             [0..<length (zip margins totals)]"
proof -
  have a: "map Inr (zip margins totals) =
           map (cell_of pf fd rate)
             (concat (map (\<lambda>q. map (\<lambda>sc. (q, sc)) deal_stage)
                (quarters quarterstart quarterend financialstart financialend)))"
    using quarter_loop_cells[OF assms[unfolded alltime_def]] by simp
  have b: "write_loop 2 1 0 [] (zip margins totals) =
           map (\<lambda>k. (65 + (1 + k div 3), 2 + k mod 3, report_of (zip margins totals ! k)))
             [0..<length (zip margins totals)]"
    using write_loop_layout[of 0 "[]" "zip margins totals"] by simp
  show ?thesis using a b by simp
qed


theorem report_layout_witness:
  "main_financial decimal_float
     (\<lambda>s e sc p.
        if p = ''limit'' \<and> s = ''2024-10-01'' \<and> sc = [''123633772'']
        then [\<lparr>amount = PStr ''100'', hs_object_id = PStr ''1'', net_revenue = PStr ''50'',
               deal_currency_code = PStr ''AUD''\<rparr>]
        else if p = ''limit'' \<and> s = ''2024-07-01'' \<and> sc = [''848f19bf-930a-4f0f-bbc5-8d4b69d2cc3a'']
        then [\<lparr>amount = PStr ''200'', hs_object_id = PStr ''2'', net_revenue = PStr ''50'',
               deal_currency_code = PStr ''AUD''\<rparr>]
        else [])
     None ''2024-10-01'' ''2024-12-31'' ''2024-07-01'' ''2025-06-30''
   = Inr [(66, 2, ReportNA), (66, 3, Report 50 (Val 1)), (66, 4, ReportNA),
          (67, 2, ReportNA), (67, 3, ReportNA), (67, 4, Report 25 (Val 1))] \<and>
   (of_char CHR ''B'' :: nat) = 66 \<and> (of_char CHR ''C'' :: nat) = 67"
proof -
  let ?fd = "\<lambda>(s::string) (e::string) (sc::string list) (p::string).
        if p = ''limit'' \<and> s = ''2024-10-01'' \<and> sc = [''123633772'']
        then [\<lparr>amount = PStr ''100'', hs_object_id = PStr ''1'', net_revenue = PStr ''50'',
               deal_currency_code = PStr ''AUD''\<rparr>]
        else if p = ''limit'' \<and> s = ''2024-07-01'' \<and> sc = [''848f19bf-930a-4f0f-bbc5-8d4b69d2cc3a'']
        then [\<lparr>amount = PStr ''200'', hs_object_id = PStr ''2'', net_revenue = PStr ''50'',
               deal_currency_code = PStr ''AUD''\<rparr>]
        else []"
  let ?stages = "[[''123633772'', ''848f19bf-930a-4f0f-bbc5-8d4b69d2cc3a''], [''123633772''],
                  [''848f19bf-930a-4f0f-bbc5-8d4b69d2cc3a'']]"
  let ?ms = "[NA, Val 50, NA, NA, NA, Val 25] :: real cell list"
  let ?ts = "[NA, Val 1, NA, NA, NA, Val 1] :: nat cell list"
  have h: "alltime decimal_float ?fd ?stages ''2024-10-01'' ''2024-12-31'' ''2024-07-01'' ''2025-06-30'' None
             = Inr (?ms, ?ts)"
    by (simp add: alltime_def quarters_def eval_defs)
  have r: "py_round2 50 = 50" "py_round2 25 = 25"
    by (simp_all add: py_round2_def)
  have w: "write_loop 2 1 0 [] (zip ?ms ?ts) =
             [(66, 2, ReportNA), (66, 3, Report 50 (Val 1)), (66, 4, ReportNA),
              (67, 2, ReportNA), (67, 3, ReportNA), (67, 4, Report 25 (Val 1))]"
    using report_layout [OF h] by (simp add: report_of_def r upt_rec)
  show ?thesis
    using h w by (simp add: main_financial_def)
qed

end
